theory Spec2Isabelle
  imports Main "HOL-Library.AList"
begin

section \<open>The query state reducer of apollo-client\<close>

text \<open>
  The reducer \<open>queries\<close> of the query store module maps a \<open>QueryStore\<close> and an action
  to a new \<open>QueryStore\<close>. This theory embeds the reducer and its helper \<open>resetQueryState\<close>
  twice: once as a function on values (the object a reference points to is the value),
  and once over an explicit heap of objects, where \<^verbatim>\<open>assign({}, ...)\<close> allocates and
  \<^verbatim>\<open>newState[k] = v\<close> writes, so that statements about which objects are written can be
  made. The two are connected by a refinement lemma.
\<close>

subsection \<open>JavaScript values\<close>

text \<open>
  A property of a JavaScript object reads as \<^verbatim>\<open>undefined\<close>, as \<^verbatim>\<open>null\<close>, or as a value of
  its declared type. A property that is absent and one that holds \<^verbatim>\<open>undefined\<close> read the
  same and are not told apart here.
\<close>

datatype 'a nullable = Undefined | Null | Val 'a

text \<open>
  The relational operator \<^verbatim>\<open>a < b\<close> of JavaScript with a number on the left: \<^verbatim>\<open>null\<close>
  converts to \<open>0\<close>, \<^verbatim>\<open>undefined\<close> to \<^verbatim>\<open>NaN\<close>, and every comparison with \<^verbatim>\<open>NaN\<close> is false.
\<close>

fun js_lt :: "int \<Rightarrow> int nullable \<Rightarrow> bool" where
  "js_lt a Undefined = False"
| "js_lt a Null = (a < 0)"
| "js_lt a (Val b) = (a < b)"

text \<open>
  \<^verbatim>\<open>Array.prototype.indexOf\<close>: the index of the first element equal to \<open>x\<close>, or \<open>-1\<close>.
\<close>

fun indexOf :: "'a list \<Rightarrow> 'a \<Rightarrow> int" where
  "indexOf [] x = -1"
| "indexOf (y # ys) x =
     (if y = x then 0 else (let i = indexOf ys x in if i = -1 then -1 else i + 1))"

subsection \<open>Property access\<close>

text \<open>
  A state is an object made by \<^verbatim>\<open>{}\<close> or \<^verbatim>\<open>assign({}, ...)\<close>, so its prototype is
  \<^verbatim>\<open>Object.prototype\<close>, and a read \<^verbatim>\<open>state[key]\<close> that finds no own property goes on to the
  properties of \<^verbatim>\<open>Object.prototype\<close>. These are their names: seven functions of the
  language standard, four legacy functions, and the accessor \<^verbatim>\<open>__proto__\<close>.
\<close>

definition objectPrototypeNames :: "string list" where
  "objectPrototypeNames =
     [''constructor'', ''toString'', ''toLocaleString'', ''valueOf'', ''hasOwnProperty'',
      ''isPrototypeOf'', ''propertyIsEnumerable'', ''__defineGetter__'', ''__defineSetter__'',
      ''__lookupGetter__'', ''__lookupSetter__'', ''__proto__'']"

text \<open>
  What \<^verbatim>\<open>state[key]\<close> evaluates to: \<^verbatim>\<open>undefined\<close>, the object of an own property (\<open>'e\<close> is
  the entry itself, or a reference to it on the heap), or a value inherited from
  \<^verbatim>\<open>Object.prototype\<close>: one of its functions, or for \<^verbatim>\<open>__proto__\<close> the prototype itself.
  An inherited value is an object, hence truthy; it has no enumerable own property and
  no property with the name of a field of an entry.
\<close>

datatype 'e jsvalue = JUndefined | JObject 'e | JInherited

definition getProperty :: "(string \<times> 'e) list \<Rightarrow> string \<Rightarrow> 'e jsvalue" where
  "getProperty obj key =
     (case map_of obj key of
        Some e \<Rightarrow> JObject e
      | None \<Rightarrow> if key \<in> set objectPrototypeNames then JInherited else JUndefined)"

text \<open>Truthiness, as \<^verbatim>\<open>!v\<close> and \<^verbatim>\<open>&&\<close> test it.\<close>

fun truthy :: "'e jsvalue \<Rightarrow> bool" where
  "truthy JUndefined = False"
| "truthy (JObject e) = True"
| "truthy JInherited = True"

subsection \<open>Data model\<close>

text \<open>
  \<^verbatim>\<open>QueryStoreValue\<close>. The type \<open>'j\<close> stands for the JavaScript values that the reducer
  only stores and compares (selection sets, variables objects, fragment maps, errors);
  equality on \<open>'j\<close> is the deep equality of \<^verbatim>\<open>lodash.isequal\<close>. A request id and a poll
  interval are integers, a \<^verbatim>\<open>Date\<close> is the clock reading it was made from. Every field is
  \<open>nullable\<close>: the reducer itself stores \<^verbatim>\<open>null\<close> in fields and builds entries from
  nothing.
\<close>

record 'j QueryStoreValue =
  queryString :: "string nullable"
  query :: "'j nullable"
  variables :: "'j nullable"
  previousVariables :: "'j nullable"
  loading :: "bool nullable"
  stopped :: "bool nullable"
  pollInterval :: "int nullable"
  inFlight :: "bool nullable"
  lastRequestTime :: "nat nullable"
  networkError :: "'j nullable"
  graphQLErrors :: "'j list nullable"
  forceFetch :: "bool nullable"
  returnPartialData :: "bool nullable"
  lastRequestId :: "int nullable"
  fragmentMap :: "'j nullable"

text \<open>
  \<^verbatim>\<open>QueryStore\<close>, an object whose property names are query ids and whose prototype is
  \<^verbatim>\<open>Object.prototype\<close>, given by its own properties. They are kept in insertion order;
  \<open>map_of\<close> reads an own property. No state that the reducer builds has an own property
  named \<^verbatim>\<open>__proto__\<close>.
\<close>

type_synonym 'j QueryStore = "(string \<times> 'j QueryStoreValue) list"

text \<open>The object \<^verbatim>\<open>{}\<close> read as a \<open>QueryStoreValue\<close>: every field is \<^verbatim>\<open>undefined\<close>.\<close>

definition emptyObject :: "'j QueryStoreValue" where
  "emptyObject =
     \<lparr> queryString = Undefined, query = Undefined, variables = Undefined,
       previousVariables = Undefined, loading = Undefined, stopped = Undefined,
       pollInterval = Undefined, inFlight = Undefined, lastRequestTime = Undefined,
       networkError = Undefined, graphQLErrors = Undefined, forceFetch = Undefined,
       returnPartialData = Undefined, lastRequestId = Undefined,
       fragmentMap = Undefined \<rparr>"

text \<open>
  The fields of an entry read off a value, as in \<^verbatim>\<open>v.variables\<close> and \<^verbatim>\<open>v.lastRequestId\<close>,
  and the enumerable own properties that \<^verbatim>\<open>assign\<close> copies from it: those of the entry, and
  none for an inherited value. The reducer reads a field only of a truthy value.
\<close>

fun fieldsOf :: "'j QueryStoreValue jsvalue \<Rightarrow> 'j QueryStoreValue" where
  "fieldsOf (JObject e) = e"
| "fieldsOf JInherited = emptyObject"
| "fieldsOf JUndefined = emptyObject"

text \<open>
  \<^verbatim>\<open>assign({}, source, {...})\<close> of \<^verbatim>\<open>lodash.assign\<close> on an entry: a fresh object receives the
  enumerable own properties of \<open>source\<close> (none when \<open>source\<close> is \<^verbatim>\<open>undefined\<close>) and then
  those of the literal, given as the update \<open>lit\<close>.
\<close>

definition assign :: "'j QueryStoreValue jsvalue \<Rightarrow> ('j QueryStoreValue \<Rightarrow> 'j QueryStoreValue)
    \<Rightarrow> 'j QueryStoreValue" where
  "assign source lit = lit (fieldsOf source)"

text \<open>
  The object a call of the reducer returns: its own properties and its prototype, where
  \<open>None\<close> is \<^verbatim>\<open>Object.prototype\<close>. \<open>plain\<close> is an object as the reducer takes it.
\<close>

record 'j StateObject =
  ownProperties :: "'j QueryStore"
  prototype :: "'j QueryStoreValue option"

definition plain :: "'j QueryStore \<Rightarrow> 'j StateObject" where
  "plain obj = \<lparr> ownProperties = obj, prototype = None \<rparr>"

text \<open>
  The assignment \<^verbatim>\<open>obj[key] = v\<close> on a state: an own property is overwritten in place; a
  new one is appended, which also shadows a function inherited under that name; but
  \<^verbatim>\<open>__proto__\<close>, when it is not an own property, is the setter of \<^verbatim>\<open>Object.prototype\<close>, which
  makes the object \<open>v\<close> the prototype of \<open>obj\<close> and adds no property.
\<close>

definition setProperty :: "string \<Rightarrow> 'j QueryStoreValue \<Rightarrow> 'j QueryStore \<Rightarrow> 'j StateObject" where
  "setProperty key v obj =
     (if key = ''__proto__'' \<and> map_of obj key = None
      then \<lparr> ownProperties = obj, prototype = Some v \<rparr>
      else plain (AList.update key v obj))"

text \<open>\<^verbatim>\<open>GraphQLResult\<close>, the payload of a result action.\<close>

record 'j GraphQLResult =
  data :: "'j nullable"
  errors :: "'j list nullable"

text \<open>
  Modelled from the spec: the action types of \<^verbatim>\<open>core/actions\<close> and their type guards
  \<^verbatim>\<open>isQueryInitAction\<close>, ..., \<^verbatim>\<open>isStoreResetAction\<close> are not among the sources. The action
  vocabulary of the spec is a closed tagged union, one constructor per kind, carrying
  the fields the reducer reads; the guard of a kind holds exactly of its constructor.
  \<open>OTHER\<close> is any action of another kind.
\<close>

record 'j QueryInitAction =
  init_queryString :: "string nullable"
  init_query :: "'j nullable"
  init_variables :: "'j nullable"
  init_forceFetch :: "bool nullable"
  init_pollInterval :: "int nullable"
  init_returnPartialData :: "bool nullable"
  init_queryId :: string
  init_fragmentMap :: "'j nullable"
  init_storePreviousVariables :: bool

datatype 'j ApolloAction =
    QUERY_INIT "'j QueryInitAction"
  | FETCH_REQUEST string int
      \<comment> \<open>\<open>queryId\<close>, \<open>requestId\<close>\<close>
  | QUERY_RESULT string int "'j GraphQLResult"
      \<comment> \<open>\<open>queryId\<close>, \<open>requestId\<close>, \<open>result\<close>\<close>
  | QUERY_ERROR string int "'j nullable"
      \<comment> \<open>\<open>queryId\<close>, \<open>requestId\<close>, \<open>error\<close>\<close>
  | QUERY_RESULT_CLIENT string bool
      \<comment> \<open>\<open>queryId\<close>, \<open>complete\<close>\<close>
  | QUERY_STOP string
      \<comment> \<open>\<open>queryId\<close>\<close>
  | STORE_RESET "string list"
      \<comment> \<open>\<open>observableQueryIds\<close>\<close>
  | OTHER

subsection \<open>The reducer on values\<close>

text \<open>
  \<^verbatim>\<open>resetQueryState\<close>: the own keys of the state, filtered by membership in the allow-list,
  are folded into a fresh object. \<^verbatim>\<open>state[key]\<close> is defined for every key the fold
  visits, since the keys are those of \<open>state\<close>, and the assignment \<^verbatim>\<open>res[key] = state[key]\<close>
  writes an own property, since no key of a state is \<^verbatim>\<open>__proto__\<close>.
\<close>

definition resetQueryState :: "'j QueryStore \<Rightarrow> string list \<Rightarrow> 'j QueryStore" where
  "resetQueryState state observableQueryIds =
     fold (\<lambda>key res. case map_of state key of
                        None \<Rightarrow> res
                      | Some v \<Rightarrow> AList.update key v res)
          (filter (\<lambda>queryId. indexOf observableQueryIds queryId > -1) (map fst state))
          []"

text \<open>
  \<^verbatim>\<open>queries\<close>. Two things the function reads besides its arguments are parameters here:
  \<open>now\<close>, the clock reading that \<^verbatim>\<open>new Date()\<close> returns in the fetch-request branch, and
  \<open>graphQLResultHasError\<close>, the predicate on results imported from \<^verbatim>\<open>data/storeUtils\<close>.
  The default \<^verbatim>\<open>{}\<close> of \<open>previousState\<close> is the empty list. The branches are tried in the
  order of the source; an action of a kind satisfies the guard of that kind only.
  \<^verbatim>\<open>assign({}, previousState)\<close> copies the own properties, and \<open>setProperty\<close> assigns to
  the copy.
\<close>

fun queries :: "nat \<Rightarrow> ('j GraphQLResult \<Rightarrow> bool) \<Rightarrow> 'j QueryStore \<Rightarrow> 'j ApolloAction
    \<Rightarrow> 'j StateObject" where
  "queries now graphQLResultHasError previousState (QUERY_INIT action) =
     (let previousQuery = getProperty previousState (init_queryId action);
          previousVariables =
            (if init_storePreviousVariables action \<and> truthy previousQuery
             then
               if variables (fieldsOf previousQuery) \<noteq> init_variables action
               then variables (fieldsOf previousQuery) else Undefined
             else Undefined)
      in setProperty (init_queryId action)
           \<lparr> queryString = init_queryString action,
             query = init_query action,
             variables = init_variables action,
             previousVariables = previousVariables,
             loading = Val True,
             stopped = Val False,
             pollInterval = init_pollInterval action,
             inFlight = Val False,
             lastRequestTime = Null,
             networkError = Null,
             graphQLErrors = Null,
             forceFetch = init_forceFetch action,
             returnPartialData = init_returnPartialData action,
             lastRequestId = Null,
             fragmentMap = init_fragmentMap action \<rparr>
           previousState)"
| "queries now graphQLResultHasError previousState (FETCH_REQUEST queryId requestId) =
     (if \<not> truthy (getProperty previousState queryId) then plain previousState
      else
        setProperty queryId
          (assign (getProperty previousState queryId)
             (\<lambda>obj. obj\<lparr> inFlight := Val True,
                        lastRequestId := Val requestId,
                        lastRequestTime := Val now \<rparr>))
          previousState)"
| "queries now graphQLResultHasError previousState (QUERY_RESULT queryId requestId result) =
     (if \<not> truthy (getProperty previousState queryId) then plain previousState
      else if js_lt requestId (lastRequestId (fieldsOf (getProperty previousState queryId)))
      then plain previousState
      else
        (let resultHasGraphQLErrors = graphQLResultHasError result
         in setProperty queryId
              (assign (getProperty previousState queryId)
                 (\<lambda>obj. obj\<lparr> loading := Val False,
                            inFlight := Val False,
                            networkError := Null,
                            graphQLErrors :=
                              (if resultHasGraphQLErrors then errors result else Null),
                            previousVariables := Null \<rparr>))
              previousState))"
| "queries now graphQLResultHasError previousState (QUERY_ERROR queryId requestId error) =
     (if \<not> truthy (getProperty previousState queryId) then plain previousState
      else if js_lt requestId (lastRequestId (fieldsOf (getProperty previousState queryId)))
      then plain previousState
      else
        setProperty queryId
          (assign (getProperty previousState queryId)
             (\<lambda>obj. obj\<lparr> loading := Val False,
                        inFlight := Val False,
                        networkError := error \<rparr>))
          previousState)"
| "queries now graphQLResultHasError previousState (QUERY_RESULT_CLIENT queryId complete) =
     (if \<not> truthy (getProperty previousState queryId) then plain previousState
      else
        setProperty queryId
          (assign (getProperty previousState queryId)
             (\<lambda>obj. obj\<lparr> loading := Val (\<not> complete),
                        networkError := Null,
                        previousVariables := Null \<rparr>))
          previousState)"
| "queries now graphQLResultHasError previousState (QUERY_STOP queryId) =
     setProperty queryId
       (assign (getProperty previousState queryId)
          (\<lambda>obj. obj\<lparr> loading := Val False, stopped := Val True \<rparr>))
       previousState"
| "queries now graphQLResultHasError previousState (STORE_RESET observableQueryIds) =
     plain (resetQueryState previousState observableQueryIds)"
| "queries now graphQLResultHasError previousState OTHER = plain previousState"

text \<open>The query id an action carries; a reset action and an action of another kind carry none.\<close>

fun action_queryId :: "'j ApolloAction \<Rightarrow> string option" where
  "action_queryId (QUERY_INIT action) = Some (init_queryId action)"
| "action_queryId (FETCH_REQUEST queryId requestId) = Some queryId"
| "action_queryId (QUERY_RESULT queryId requestId result) = Some queryId"
| "action_queryId (QUERY_ERROR queryId requestId error) = Some queryId"
| "action_queryId (QUERY_RESULT_CLIENT queryId complete) = Some queryId"
| "action_queryId (QUERY_STOP queryId) = Some queryId"
| "action_queryId (STORE_RESET observableQueryIds) = None"
| "action_queryId OTHER = None"

subsection \<open>The reducer on a heap of objects\<close>

text \<open>
  Objects live on a heap and are named by references. There are two kinds of object:
  \<open>QueryStore\<close> objects, whose properties hold references to entries and whose prototype
  is \<^verbatim>\<open>Object.prototype\<close> (\<open>None\<close>) or an entry, and the entries themselves. A reference is
  an index; allocation appends, so a fresh object gets the index that is the current
  length.
\<close>

type_synonym ref = nat

record storeObject =
  properties :: "(string \<times> ref) list"
  prototypeRef :: "ref option"

record 'j heap =
  storeObjects :: "storeObject list"
  valueObjects :: "'j QueryStoreValue list"

text \<open>\<^verbatim>\<open>assign({}, source)\<close> on a \<open>QueryStore\<close>, or \<^verbatim>\<open>{}\<close> itself: a new object with the given properties.\<close>

definition newStore :: "(string \<times> ref) list \<Rightarrow> 'j heap \<Rightarrow> 'j heap \<times> ref" where
  "newStore props h =
     (h\<lparr> storeObjects := storeObjects h @ [\<lparr> properties = props, prototypeRef = None \<rparr>] \<rparr>,
      length (storeObjects h))"

text \<open>An object literal, or \<^verbatim>\<open>assign({}, source, {...})\<close> on an entry: a new entry object.\<close>

definition newValue :: "'j QueryStoreValue \<Rightarrow> 'j heap \<Rightarrow> 'j heap \<times> ref" where
  "newValue v h =
     (h\<lparr> valueObjects := valueObjects h @ [v] \<rparr>, length (valueObjects h))"

text \<open>
  The own properties of the object that \<open>state\<close> refers to, the read \<^verbatim>\<open>state[key]\<close>, and the
  object a reference or a value that was read stands for.
\<close>

definition ownProps :: "'j heap \<Rightarrow> ref \<Rightarrow> (string \<times> ref) list" where
  "ownProps h state = properties (storeObjects h ! state)"

definition getProp :: "'j heap \<Rightarrow> ref \<Rightarrow> string \<Rightarrow> ref jsvalue" where
  "getProp h state key = getProperty (ownProps h state) key"

definition deref :: "'j heap \<Rightarrow> ref \<Rightarrow> 'j QueryStoreValue" where
  "deref h r = valueObjects h ! r"

definition readValue :: "'j heap \<Rightarrow> ref jsvalue \<Rightarrow> 'j QueryStoreValue jsvalue" where
  "readValue h v = map_jsvalue (deref h) v"

text \<open>
  The two effects of an assignment \<^verbatim>\<open>state[key] = r\<close>: writing an own property, and, for
  \<^verbatim>\<open>__proto__\<close> that is not an own property, setting the prototype.
\<close>

definition setOwnProp :: "ref \<Rightarrow> string \<Rightarrow> ref \<Rightarrow> 'j heap \<Rightarrow> 'j heap" where
  "setOwnProp state key r h =
     h\<lparr> storeObjects :=
          (storeObjects h)[state := (storeObjects h ! state)
             \<lparr> properties := AList.update key r (ownProps h state) \<rparr>] \<rparr>"

definition setProp :: "ref \<Rightarrow> string \<Rightarrow> ref \<Rightarrow> 'j heap \<Rightarrow> 'j heap" where
  "setProp state key r h =
     (if key = ''__proto__'' \<and> map_of (ownProps h state) key = None
      then h\<lparr> storeObjects :=
               (storeObjects h)[state := (storeObjects h ! state)\<lparr> prototypeRef := Some r \<rparr>] \<rparr>
      else setOwnProp state key r h)"

text \<open>
  A reference to a \<open>QueryStore\<close> is well formed in a heap when it and the references in
  its properties point to allocated objects, as every reference a program holds does,
  and the prototype of the object is \<^verbatim>\<open>Object.prototype\<close>; the statements about the heap
  are made of well-formed references. Reading one gives the \<open>QueryStore\<close> value the
  reducer on values works with; reading the reference that a call returns gives a
  \<open>StateObject\<close>.
\<close>

definition wf_store :: "'j heap \<Rightarrow> ref \<Rightarrow> bool" where
  "wf_store h state \<longleftrightarrow>
     state < length (storeObjects h)
     \<and> list_all (\<lambda>(key, r). r < length (valueObjects h)) (ownProps h state)
     \<and> prototypeRef (storeObjects h ! state) = None"

definition readStore :: "'j heap \<Rightarrow> ref \<Rightarrow> 'j QueryStore" where
  "readStore h state = map (\<lambda>(key, r). (key, deref h r)) (ownProps h state)"

definition readObject :: "'j heap \<Rightarrow> ref \<Rightarrow> 'j StateObject" where
  "readObject h state =
     \<lparr> ownProperties = readStore h state,
       prototype = map_option (deref h) (prototypeRef (storeObjects h ! state)) \<rparr>"

text \<open>
  The three statements every writing branch of \<open>queries\<close> ends with:
  \<^verbatim>\<open>const newState = assign({}, previousState); newState[queryId] = <new object>; return newState\<close>.
\<close>

definition writeEntry :: "ref \<Rightarrow> string \<Rightarrow> 'j QueryStoreValue \<Rightarrow> 'j heap \<Rightarrow> 'j heap \<times> ref" where
  "writeEntry previousState queryId v h =
     (let (h1, newState) = newStore (ownProps h previousState) h;
          (h2, entry) = newValue v h1
      in (setProp newState queryId entry h2, newState))"

text \<open>
  \<^verbatim>\<open>resetQueryState\<close> on the heap. The keys are own keys of \<open>state\<close>, none of them
  \<^verbatim>\<open>__proto__\<close>, so \<^verbatim>\<open>state[key]\<close> reads and \<^verbatim>\<open>res[key] = ...\<close> writes an own property.
\<close>

definition resetQueryState_heap :: "'j heap \<Rightarrow> ref \<Rightarrow> string list \<Rightarrow> 'j heap \<times> ref" where
  "resetQueryState_heap h state observableQueryIds =
     (let (h1, res) = newStore [] h
      in (fold (\<lambda>key hh. case map_of (ownProps hh state) key of
                            None \<Rightarrow> hh
                          | Some r \<Rightarrow> setOwnProp res key r hh)
               (filter (\<lambda>queryId. indexOf observableQueryIds queryId > -1)
                  (map fst (ownProps h state)))
               h1,
          res))"

fun queries_heap :: "nat \<Rightarrow> ('j GraphQLResult \<Rightarrow> bool) \<Rightarrow> 'j heap \<Rightarrow> ref \<Rightarrow> 'j ApolloAction
    \<Rightarrow> 'j heap \<times> ref" where
  "queries_heap now graphQLResultHasError h previousState (QUERY_INIT action) =
     (let previousQuery = readValue h (getProp h previousState (init_queryId action));
          previousVariables =
            (if init_storePreviousVariables action \<and> truthy previousQuery
             then
               if variables (fieldsOf previousQuery) \<noteq> init_variables action
               then variables (fieldsOf previousQuery) else Undefined
             else Undefined)
      in writeEntry previousState (init_queryId action)
           \<lparr> queryString = init_queryString action,
             query = init_query action,
             variables = init_variables action,
             previousVariables = previousVariables,
             loading = Val True,
             stopped = Val False,
             pollInterval = init_pollInterval action,
             inFlight = Val False,
             lastRequestTime = Null,
             networkError = Null,
             graphQLErrors = Null,
             forceFetch = init_forceFetch action,
             returnPartialData = init_returnPartialData action,
             lastRequestId = Null,
             fragmentMap = init_fragmentMap action \<rparr>
           h)"
| "queries_heap now graphQLResultHasError h previousState (FETCH_REQUEST queryId requestId) =
     (if \<not> truthy (getProp h previousState queryId) then (h, previousState)
      else
        writeEntry previousState queryId
          (assign (readValue h (getProp h previousState queryId))
             (\<lambda>obj. obj\<lparr> inFlight := Val True,
                        lastRequestId := Val requestId,
                        lastRequestTime := Val now \<rparr>))
          h)"
| "queries_heap now graphQLResultHasError h previousState (QUERY_RESULT queryId requestId result) =
     (if \<not> truthy (getProp h previousState queryId) then (h, previousState)
      else if js_lt requestId
                (lastRequestId (fieldsOf (readValue h (getProp h previousState queryId))))
      then (h, previousState)
      else
        (let resultHasGraphQLErrors = graphQLResultHasError result
         in writeEntry previousState queryId
              (assign (readValue h (getProp h previousState queryId))
                 (\<lambda>obj. obj\<lparr> loading := Val False,
                            inFlight := Val False,
                            networkError := Null,
                            graphQLErrors :=
                              (if resultHasGraphQLErrors then errors result else Null),
                            previousVariables := Null \<rparr>))
              h))"
| "queries_heap now graphQLResultHasError h previousState (QUERY_ERROR queryId requestId error) =
     (if \<not> truthy (getProp h previousState queryId) then (h, previousState)
      else if js_lt requestId
                (lastRequestId (fieldsOf (readValue h (getProp h previousState queryId))))
      then (h, previousState)
      else
        writeEntry previousState queryId
          (assign (readValue h (getProp h previousState queryId))
             (\<lambda>obj. obj\<lparr> loading := Val False,
                        inFlight := Val False,
                        networkError := error \<rparr>))
          h)"
| "queries_heap now graphQLResultHasError h previousState (QUERY_RESULT_CLIENT queryId complete) =
     (if \<not> truthy (getProp h previousState queryId) then (h, previousState)
      else
        writeEntry previousState queryId
          (assign (readValue h (getProp h previousState queryId))
             (\<lambda>obj. obj\<lparr> loading := Val (\<not> complete),
                        networkError := Null,
                        previousVariables := Null \<rparr>))
          h)"
| "queries_heap now graphQLResultHasError h previousState (QUERY_STOP queryId) =
     writeEntry previousState queryId
       (assign (readValue h (getProp h previousState queryId))
          (\<lambda>obj. obj\<lparr> loading := Val False, stopped := Val True \<rparr>))
       h"
| "queries_heap now graphQLResultHasError h previousState (STORE_RESET observableQueryIds) =
     resetQueryState_heap h previousState observableQueryIds"
| "queries_heap now graphQLResultHasError h previousState OTHER = (h, previousState)"

subsection \<open>Example data\<close>

text \<open>
  Three queries: \<open>a\<close> has sent request 2 and is in flight, \<open>b\<close> has been initialised and has
  sent nothing, \<open>c\<close> has received the result of request 1. Values opaque to the reducer are
  numbers here.
\<close>

definition entryA :: "nat QueryStoreValue" where
  "entryA =
     \<lparr> queryString = Val ''{ a }'', query = Val 10, variables = Val 11,
       previousVariables = Val 12, loading = Val True, stopped = Val False,
       pollInterval = Val 4000, inFlight = Val True, lastRequestTime = Val 100,
       networkError = Null, graphQLErrors = Null, forceFetch = Val False,
       returnPartialData = Val False, lastRequestId = Val 2, fragmentMap = Val 13 \<rparr>"

definition entryB :: "nat QueryStoreValue" where
  "entryB =
     \<lparr> queryString = Val ''{ b }'', query = Val 20, variables = Val 21,
       previousVariables = Undefined, loading = Val True, stopped = Val False,
       pollInterval = Undefined, inFlight = Val False, lastRequestTime = Null,
       networkError = Null, graphQLErrors = Null, forceFetch = Val True,
       returnPartialData = Val False, lastRequestId = Null, fragmentMap = Val 23 \<rparr>"

definition entryC :: "nat QueryStoreValue" where
  "entryC =
     \<lparr> queryString = Val ''{ c }'', query = Val 30, variables = Val 31,
       previousVariables = Null, loading = Val False, stopped = Val False,
       pollInterval = Val 10000, inFlight = Val False, lastRequestTime = Val 50,
       networkError = Null, graphQLErrors = Null, forceFetch = Val False,
       returnPartialData = Val True, lastRequestId = Val 1, fragmentMap = Val 33 \<rparr>"

definition stateABC :: "nat QueryStore" where
  "stateABC = [(''a'', entryA), (''b'', entryB), (''c'', entryC)]"


definition hasErrors :: "nat GraphQLResult \<Rightarrow> bool" where
  "hasErrors r = (case errors r of Val (e # es) \<Rightarrow> True | _ \<Rightarrow> False)"


text \<open>The same three queries on a heap: the state object is at reference 0.\<close>

definition heapABC :: "nat heap" where
  "heapABC =
     \<lparr> storeObjects = [\<lparr> properties = [(''a'', 0), (''b'', 1), (''c'', 2)],
                          prototypeRef = None \<rparr>],
       valueObjects = [entryA, entryB, entryC] \<rparr>"

text \<open>The heap after query \<open>b\<close> has been stopped: one new state object, one new entry.\<close>

definition heapABC_stopB :: "nat heap" where
  "heapABC_stopB =
     \<lparr> storeObjects = [\<lparr> properties = [(''a'', 0), (''b'', 1), (''c'', 2)],
                          prototypeRef = None \<rparr>,
                        \<lparr> properties = [(''a'', 0), (''b'', 3), (''c'', 2)],
                          prototypeRef = None \<rparr>],
       valueObjects = [entryA, entryB, entryC,
                       entryB\<lparr> loading := Val False, stopped := Val True \<rparr>] \<rparr>"

text \<open>
  The heap after a stop action for the id \<^verbatim>\<open>__proto__\<close>: the new state object has the
  properties of the previous one, and the new entry is its prototype.
\<close>

definition heapABC_stopProto :: "nat heap" where
  "heapABC_stopProto =
     \<lparr> storeObjects = [\<lparr> properties = [(''a'', 0), (''b'', 1), (''c'', 2)],
                          prototypeRef = None \<rparr>,
                        \<lparr> properties = [(''a'', 0), (''b'', 1), (''c'', 2)],
                          prototypeRef = Some 3 \<rparr>],
       valueObjects = [entryA, entryB, entryC,
                       emptyObject\<lparr> loading := Val False, stopped := Val True \<rparr>] \<rparr>"

subsection \<open>Reading and writing properties\<close>

lemma getProperty_own: "map_of obj key = Some e \<Longrightarrow> getProperty obj key = JObject e"
  by (simp add: getProperty_def)

lemma getProperty_unknown:
  "map_of obj key = None \<Longrightarrow> key \<notin> set objectPrototypeNames \<Longrightarrow>
     getProperty obj key = JUndefined"
  by (simp add: getProperty_def)

lemma getProperty_inherited:
  "map_of obj key = None \<Longrightarrow> key \<in> set objectPrototypeNames \<Longrightarrow>
     getProperty obj key = JInherited"
  by (simp add: getProperty_def)

lemma objectPrototypeNames_set:
  "set objectPrototypeNames =
     {''constructor'', ''toString'', ''toLocaleString'', ''valueOf'',
      ''hasOwnProperty'', ''isPrototypeOf'', ''propertyIsEnumerable'',
      ''__defineGetter__'', ''__defineSetter__'', ''__lookupGetter__'',
      ''__lookupSetter__'', ''__proto__''}"
  by (simp add: objectPrototypeNames_def)

lemma setProperty_own:
  "map_of obj key = Some e \<Longrightarrow> setProperty key v obj = plain (AList.update key v obj)"
  by (simp add: setProperty_def)


lemma ownProperties_setProperty:
  "q \<noteq> key \<Longrightarrow> map_of (ownProperties (setProperty key v obj)) q = map_of obj q"
  by (simp add: setProperty_def plain_def AList.update_conv')

subsection \<open>Result and error actions\<close>







subsection \<open>Fetch requests\<close>




subsection \<open>Initialisation\<close>




subsection \<open>Stopping a query\<close>

text \<open>
  C2, as stated: a \<^verbatim>\<open>QUERY_STOP\<close> action removes the entry of its query id. It does not:
  the entry of \<open>a\<close> is still there after the action.
\<close>

theorem queries_QUERY_STOP_removes_counterexample:
  "map_of stateABC ''a'' = Some entryA
   \<and> map_of (ownProperties (queries 0 hasErrors stateABC (QUERY_STOP ''a''))) ''a'' \<noteq> None"
  by (simp add: stateABC_def getProperty_def setProperty_def plain_def)

text \<open>
  C2, amended. A \<^verbatim>\<open>QUERY_STOP\<close> action for a query id with an entry keeps the entry and
  replaces it by a copy with \<open>loading = false\<close> and \<open>stopped = true\<close>; no other field
  changes.
\<close>

theorem queries_QUERY_STOP_known:
  "map_of S queryId = Some e \<Longrightarrow>
     queries now hasErr S (QUERY_STOP queryId) =
       plain (AList.update queryId (e\<lparr> loading := Val False, stopped := Val True \<rparr>) S)
     \<and> map_of (ownProperties (queries now hasErr S (QUERY_STOP queryId))) =
       (map_of S)(queryId \<mapsto> e\<lparr> loading := Val False, stopped := Val True \<rparr>)"
  by (simp add: getProperty_own setProperty_own assign_def plain_def AList.update_conv')

theorem queries_QUERY_STOP_known_witness:
  "map_of stateABC ''a'' = Some entryA
   \<and> queries 0 hasErrors stateABC (QUERY_STOP ''a'') =
       plain
        [(''a'', entryA\<lparr> loading := Val False, stopped := Val True \<rparr>),
         (''b'', entryB), (''c'', entryC)]"
  using queries_QUERY_STOP_known [of stateABC "''a''" entryA 0 hasErrors]
  by (simp add: stateABC_def)




subsection \<open>Store reset\<close>

lemma indexOf_ge: "indexOf xs x \<ge> -1"
  by (induction xs) (auto simp: Let_def)

lemma indexOf_member: "indexOf xs x > -1 \<longleftrightarrow> x \<in> set xs"
proof (induction xs)
  case Nil
  then show ?case by simp
next
  case (Cons y ys)
  have "indexOf ys x \<ge> -1" by (rule indexOf_ge)
  with Cons show ?case by (auto simp: Let_def)
qed

lemma map_of_fold_copy:
  "map_of (fold (\<lambda>key res. case map_of state key of
                              None \<Rightarrow> res
                            | Some v \<Rightarrow> AList.update key v res) ks acc) q =
     (if q \<in> set ks \<and> map_of state q \<noteq> None then map_of state q else map_of acc q)"
  by (induction ks arbitrary: acc) (auto simp: AList.update_conv' split: option.splits)

lemma map_of_resetQueryState:
  "map_of (resetQueryState S ids) = map_of S |` set ids"
proof
  fix q
  show "map_of (resetQueryState S ids) q = (map_of S |` set ids) q"
  proof (cases "map_of S q")
    case None
    then show ?thesis
      by (simp add: resetQueryState_def map_of_fold_copy restrict_map_def)
  next
    case (Some v)
    then have "q \<in> fst ` set S"
      by (metis map_of_eq_None_iff option.distinct(1))
    with Some show ?thesis
      by (simp add: resetQueryState_def map_of_fold_copy restrict_map_def indexOf_member)
  qed
qed

lemma resetQueryState_example:
  "queries 0 hasErrors stateABC (STORE_RESET [''a'']) = plain [(''a'', entryA)]"
  by (simp add: stateABC_def resetQueryState_def)


subsection \<open>Dependence on the clock\<close>

text \<open>
  C3, as stated: two applications of the reducer to the same state and action return
  equal states. They do not: the fetch-request branch reads the clock with
  \<^verbatim>\<open>new Date()\<close>, and two applications at different times differ in \<open>lastRequestTime\<close>.
\<close>

theorem queries_pure_counterexample:
  "queries 100 hasErrors stateABC (FETCH_REQUEST ''b'' 3)
     \<noteq> queries 200 hasErrors stateABC (FETCH_REQUEST ''b'' 3)"
  by (simp add: stateABC_def getProperty_def setProperty_def plain_def assign_def entryB_def)

text \<open>
  C3, amended. The reducer is a function of the previous state, the action and the
  clock reading. Two applications to the same state and action return equal states
  unless the action is a \<^verbatim>\<open>FETCH_REQUEST\<close> that passes the guard of its branch: one for a
  query id that has an entry, or that is the name of a property of \<^verbatim>\<open>Object.prototype\<close>.
  For a query id that has an entry each application returns the state with that
  entry's \<open>inFlight\<close>, \<open>lastRequestId\<close> and \<open>lastRequestTime\<close> set, and the two differ at
  most in \<open>lastRequestTime\<close>, the clock reading of each.
\<close>

theorem queries_clock:
  "(\<not> (\<exists>queryId requestId. a = FETCH_REQUEST queryId requestId
          \<and> (map_of S queryId \<noteq> None
              \<or> queryId \<in> {''constructor'', ''toString'', ''toLocaleString'', ''valueOf'',
                           ''hasOwnProperty'', ''isPrototypeOf'', ''propertyIsEnumerable'',
                           ''__defineGetter__'', ''__defineSetter__'', ''__lookupGetter__'',
                           ''__lookupSetter__'', ''__proto__''})) \<longrightarrow>
      queries now1 hasErr S a = queries now2 hasErr S a)
   \<and> (\<forall>queryId requestId e. a = FETCH_REQUEST queryId requestId \<and> map_of S queryId = Some e \<longrightarrow>
      queries now1 hasErr S a =
        plain (AList.update queryId
          (e\<lparr> inFlight := Val True, lastRequestId := Val requestId,
              lastRequestTime := Val now1 \<rparr>) S)
      \<and> queries now2 hasErr S a =
        plain (AList.update queryId
          (e\<lparr> inFlight := Val True, lastRequestId := Val requestId,
              lastRequestTime := Val now2 \<rparr>) S))"
proof (cases a)
  case (FETCH_REQUEST queryId requestId)
  show ?thesis
  proof (cases "map_of S queryId")
    case None
    with FETCH_REQUEST show ?thesis
      by (auto simp: getProperty_def objectPrototypeNames_def)
  next
    case (Some e)
    with FETCH_REQUEST show ?thesis
      by (simp add: getProperty_own setProperty_own assign_def)
  qed
qed simp_all

theorem queries_clock_witness:
  "queries 100 hasErrors stateABC (QUERY_STOP ''a'') = queries 200 hasErrors stateABC (QUERY_STOP ''a'')
   \<and> map_of stateABC ''z'' = None
   \<and> ''z'' \<notin> {''constructor'', ''toString'', ''toLocaleString'', ''valueOf'',
              ''hasOwnProperty'', ''isPrototypeOf'', ''propertyIsEnumerable'',
              ''__defineGetter__'', ''__defineSetter__'', ''__lookupGetter__'',
              ''__lookupSetter__'', ''__proto__''}
   \<and> queries 100 hasErrors stateABC (FETCH_REQUEST ''z'' 3)
       = queries 200 hasErrors stateABC (FETCH_REQUEST ''z'' 3)
   \<and> map_of stateABC ''b'' = Some entryB
   \<and> queries 100 hasErrors stateABC (FETCH_REQUEST ''b'' 3) =
       plain
        [(''a'', entryA),
         (''b'', entryB\<lparr> inFlight := Val True, lastRequestId := Val 3,
                         lastRequestTime := Val 100 \<rparr>),
         (''c'', entryC)]
   \<and> queries 200 hasErrors stateABC (FETCH_REQUEST ''b'' 3) =
       plain
        [(''a'', entryA),
         (''b'', entryB\<lparr> inFlight := Val True, lastRequestId := Val 3,
                         lastRequestTime := Val 200 \<rparr>),
         (''c'', entryC)]"
  using queries_clock [of "QUERY_STOP ''a''" stateABC 100 hasErrors 200]
    queries_clock [of "FETCH_REQUEST ''z'' 3" stateABC 100 hasErrors 200]
    queries_clock [of "FETCH_REQUEST ''b'' 3" stateABC 100 hasErrors 200]
  by (simp add: stateABC_def objectPrototypeNames_def)

subsection \<open>What the reducer leaves alone\<close>

lemma queries_other_ids:
  "action_queryId a = Some queryId \<Longrightarrow> q \<noteq> queryId \<Longrightarrow>
     map_of (ownProperties (queries now hasErr S a)) q = map_of S q"
  by (cases a) (auto simp: ownProperties_setProperty plain_def Let_def)

lemma set_update_subset: "set (AList.update k v xs) \<subseteq> insert (k, v) (set xs)"
  by (induction xs) auto

lemma keys_setProperty:
  "fst ` set (ownProperties (setProperty key v obj)) \<subseteq> insert key (fst ` set obj)"
  by (auto simp: setProperty_def plain_def dom_update)

text \<open>The reducer never gives a state an own property named \<^verbatim>\<open>__proto__\<close>.\<close>

lemma queries_no_own_proto:
  assumes "''__proto__'' \<notin> fst ` set S"
  shows "''__proto__'' \<notin> fst ` set (ownProperties (queries now hasErr S a))"
proof -
  from assms have none: "map_of S ''__proto__'' = None"
    by (simp add: map_of_eq_None_iff)
  have wr: "''__proto__'' \<notin> fst ` set (ownProperties (setProperty key v S))" for key v
  proof (cases "key = ''__proto__''")
    case True
    with none assms show ?thesis by (simp add: setProperty_def)
  next
    case False
    with assms keys_setProperty [of key v S] show ?thesis by auto
  qed
  show ?thesis
  proof (cases a)
    case (STORE_RESET ids)
    have "map_of (resetQueryState S ids) ''__proto__'' = None"
      by (simp add: map_of_resetQueryState restrict_map_def none)
    with STORE_RESET show ?thesis
      by (simp add: plain_def map_of_eq_None_iff)
  qed (use assms wr in \<open>auto simp: plain_def Let_def\<close>)
qed

lemma map_update_values:
  "map (\<lambda>(k, r). (k, f r)) (AList.update q r0 xs) =
     AList.update q (f r0) (map (\<lambda>(k, r). (k, f r)) xs)"
  by (induction xs) auto

lemma getProperty_map:
  "getProperty (map (\<lambda>(k, r). (k, f r)) xs) key = map_jsvalue f (getProperty xs key)"
  by (simp add: getProperty_def map_of_map split: option.splits)

lemma truthy_map: "truthy (map_jsvalue f v) = truthy v"
  by (cases v) simp_all

lemma readValue_getProp:
  "readValue h (getProp h state key) = getProperty (readStore h state) key"
  by (simp add: readValue_def getProp_def readStore_def getProperty_map)

lemma truthy_getProp:
  "truthy (getProp h state key) = truthy (getProperty (readStore h state) key)"
  by (simp add: readValue_getProp [symmetric] readValue_def truthy_map)

lemma map_of_readStore_None:
  "map_of (readStore h state) key = None \<longleftrightarrow> map_of (ownProps h state) key = None"
  by (simp add: readStore_def map_of_map)

lemma writeEntry_heap:
  "writeEntry previousState queryId v h =
     (\<lparr> storeObjects = storeObjects h @
           [if queryId = ''__proto__'' \<and> map_of (ownProps h previousState) queryId = None
            then \<lparr> properties = ownProps h previousState,
                   prototypeRef = Some (length (valueObjects h)) \<rparr>
            else \<lparr> properties =
                     AList.update queryId (length (valueObjects h)) (ownProps h previousState),
                   prototypeRef = None \<rparr>],
        valueObjects = valueObjects h @ [v] \<rparr>,
      length (storeObjects h))"
  by (auto simp: writeEntry_def newStore_def newValue_def setProp_def setOwnProp_def
      ownProps_def)

lemma readStore_extend:
  assumes "wf_store h state"
    and "storeObjects h' = storeObjects h @ ss"
    and "valueObjects h' = valueObjects h @ vs"
  shows "readStore h' state = readStore h state"
    and "readObject h' state = plain (readStore h state)"
proof -
  from assms(1) have lt: "state < length (storeObjects h)"
    and refs: "\<forall>(key, r) \<in> set (ownProps h state). r < length (valueObjects h)"
    and proto: "prototypeRef (storeObjects h ! state) = None"
    by (auto simp: wf_store_def list_all_iff)
  from lt assms(2) have same: "storeObjects h' ! state = storeObjects h ! state"
    by (simp add: nth_append)
  then have props: "ownProps h' state = ownProps h state"
    by (simp add: ownProps_def)
  show eq: "readStore h' state = readStore h state"
    unfolding readStore_def props
    using refs by (auto simp: deref_def assms(3) nth_append)
  show "readObject h' state = plain (readStore h state)"
    by (simp add: readObject_def eq same proto plain_def)
qed

lemma readObject_writeEntry:
  assumes "wf_store h previousState"
  shows "readObject (fst (writeEntry previousState queryId v h))
           (snd (writeEntry previousState queryId v h)) =
         setProperty queryId v (readStore h previousState)"
proof -
  from assms have refs:
    "\<forall>(key, r) \<in> set (ownProps h previousState). r < length (valueObjects h)"
    by (auto simp: wf_store_def list_all_iff)
  have old: "map (\<lambda>(key, r). (key, (valueObjects h @ [v]) ! r)) (ownProps h previousState) =
      map (\<lambda>(key, r). (key, valueObjects h ! r)) (ownProps h previousState)"
    using refs by (auto simp: nth_append)
  have none: "map_of (map (\<lambda>(key, r). (key, valueObjects h ! r)) (ownProps h previousState))
      queryId = None \<longleftrightarrow> map_of (ownProps h previousState) queryId = None"
    by (simp add: map_of_map)
  show ?thesis
    by (auto simp: writeEntry_heap readObject_def readStore_def ownProps_def deref_def
        setProperty_def plain_def map_update_values old [unfolded ownProps_def]
        none [unfolded ownProps_def])
qed

lemma writeEntry_grows:
  "(\<exists>ss. storeObjects (fst (writeEntry previousState queryId v h)) = storeObjects h @ ss)
     \<and> (\<exists>vs. valueObjects (fst (writeEntry previousState queryId v h)) = valueObjects h @ vs)"
  by (simp add: writeEntry_heap)

lemma ownProps_writeEntry:
  "q \<noteq> queryId \<Longrightarrow>
     map_of (ownProps (fst (writeEntry previousState queryId v h))
       (snd (writeEntry previousState queryId v h))) q = map_of (ownProps h previousState) q"
  by (simp add: writeEntry_heap ownProps_def AList.update_conv')

lemma fold_setOwnProp:
  assumes "state < length (storeObjects h)"
    and "storeObjects hh = storeObjects h @ [\<lparr> properties = acc, prototypeRef = None \<rparr>]"
    and "valueObjects hh = valueObjects h"
  shows "fold (\<lambda>key hh. case map_of (ownProps hh state) key of
                          None \<Rightarrow> hh
                        | Some r \<Rightarrow> setOwnProp (length (storeObjects h)) key r hh) ks hh =
         hh\<lparr> storeObjects := storeObjects h @
               [\<lparr> properties =
                    fold (\<lambda>key res. case map_of (ownProps h state) key of
                                       None \<Rightarrow> res
                                     | Some r \<Rightarrow> AList.update key r res) ks acc,
                  prototypeRef = None \<rparr>] \<rparr>"
  using assms(2,3)
proof (induction ks arbitrary: acc hh)
  case Nil
  then show ?case by simp
next
  case (Cons key ks)
  from assms(1) Cons.prems have get: "ownProps hh state = ownProps h state"
    by (simp add: ownProps_def nth_append)
  show ?case
  proof (cases "map_of (ownProps h state) key")
    case None
    with get Cons show ?thesis by simp
  next
    case (Some r)
    let ?hh = "setOwnProp (length (storeObjects h)) key r hh"
    have s: "storeObjects ?hh =
        storeObjects h @ [\<lparr> properties = AList.update key r acc, prototypeRef = None \<rparr>]"
      and v: "valueObjects ?hh = valueObjects h"
      using Cons.prems by (simp_all add: setOwnProp_def ownProps_def)
    from Cons.IH [OF s v] get Some show ?thesis
      by (simp add: setOwnProp_def)
  qed
qed

lemma resetQueryState_heap_eq:
  assumes "state < length (storeObjects h)"
  shows "resetQueryState_heap h state ids =
     (h\<lparr> storeObjects := storeObjects h @
           [\<lparr> properties =
                fold (\<lambda>key res. case map_of (ownProps h state) key of
                                   None \<Rightarrow> res
                                 | Some r \<Rightarrow> AList.update key r res)
                  (filter (\<lambda>queryId. indexOf ids queryId > -1) (map fst (ownProps h state)))
                  [],
              prototypeRef = None \<rparr>] \<rparr>,
      length (storeObjects h))"
proof -
  let ?h1 = "h\<lparr> storeObjects := storeObjects h @ [\<lparr> properties = [], prototypeRef = None \<rparr>] \<rparr>"
  have "storeObjects ?h1 = storeObjects h @ [\<lparr> properties = [], prototypeRef = None \<rparr>]"
    and "valueObjects ?h1 = valueObjects h"
    by simp_all
  from fold_setOwnProp [OF assms this] show ?thesis
    by (simp add: resetQueryState_heap_def newStore_def)
qed

lemma map_fold_copy:
  "map (\<lambda>(k, r). (k, f r))
     (fold (\<lambda>key res. case map_of xs key of
                         None \<Rightarrow> res
                       | Some r \<Rightarrow> AList.update key r res) ks acc) =
   fold (\<lambda>key res. case map_of (map (\<lambda>(k, r). (k, f r)) xs) key of
                      None \<Rightarrow> res
                    | Some v \<Rightarrow> AList.update key v res) ks
     (map (\<lambda>(k, r). (k, f r)) acc)"
  by (induction ks arbitrary: acc)
     (auto simp: map_of_map map_update_values split: option.splits)

lemma readObject_resetQueryState_heap:
  assumes "wf_store h state"
  shows "readObject (fst (resetQueryState_heap h state ids)) (snd (resetQueryState_heap h state ids))
      = plain (resetQueryState (readStore h state) ids)"
proof -
  from assms have lt: "state < length (storeObjects h)"
    by (auto simp: wf_store_def)
  have keys: "map fst (readStore h state) = map fst (ownProps h state)"
    by (simp add: readStore_def case_prod_beta comp_def)
  show ?thesis
    unfolding resetQueryState_heap_eq [OF lt] resetQueryState_def keys
    by (simp add: readObject_def readStore_def ownProps_def deref_def map_fold_copy plain_def)
qed

lemma queries_heap_grows:
  assumes "wf_store h previousState"
  shows "(\<exists>ss. storeObjects (fst (queries_heap now hasErr h previousState a)) = storeObjects h @ ss)
     \<and> (\<exists>vs. valueObjects (fst (queries_heap now hasErr h previousState a)) = valueObjects h @ vs)"
proof (cases a)
  case (STORE_RESET ids)
  from assms have "previousState < length (storeObjects h)"
    by (simp add: wf_store_def)
  with STORE_RESET show ?thesis
    by (simp add: resetQueryState_heap_eq)
qed (simp_all add: writeEntry_grows Let_def)

lemma queries_heap_other_ids:
  "action_queryId a = Some queryId \<Longrightarrow> q \<noteq> queryId \<Longrightarrow>
     map_of (ownProps (fst (queries_heap now hasErr h previousState a))
       (snd (queries_heap now hasErr h previousState a))) q =
     map_of (ownProps h previousState) q"
  by (cases a) (auto simp: ownProps_writeEntry Let_def)

lemma queries_heap_refines:
  assumes "wf_store h previousState"
  shows "readObject (fst (queries_heap now hasErr h previousState a))
           (snd (queries_heap now hasErr h previousState a))
         = queries now hasErr (readStore h previousState) a"
proof (cases a)
  case (STORE_RESET ids)
  with readObject_resetQueryState_heap [OF assms, of ids] show ?thesis by simp
next
  case OTHER
  with readStore_extend(2) [OF assms, of h "[]" "[]"] show ?thesis by simp
qed (use readStore_extend(2) [OF assms, of h "[]" "[]"] in
      \<open>simp_all add: readObject_writeEntry [OF assms] readValue_getProp truthy_getProp Let_def\<close>)

text \<open>
  C9. For an action that carries a query id, the new state maps every other query id to
  the entry it had: on values, and on the heap, where the property of the new state
  object holds the reference that the property of the previous state object holds. For
  an action of any kind the reducer only allocates: the heap after the call is the heap
  before it with objects appended, so the previous state object and its entries are as
  they were and the previous state reads as before. The state object it returns reads
  as the state that the reducer on values returns.
\<close>

theorem queries_frame:
  "wf_store h previousState \<Longrightarrow>
   queries_heap now hasErr h previousState a = (h', newState) \<Longrightarrow>
     (\<exists>ss vs. storeObjects h' = storeObjects h @ ss \<and> valueObjects h' = valueObjects h @ vs)
     \<and> readStore h' previousState = readStore h previousState
     \<and> readObject h' previousState = plain (readStore h previousState)
     \<and> readObject h' newState = queries now hasErr (readStore h previousState) a
     \<and> (\<forall>queryId q. action_queryId a = Some queryId \<and> q \<noteq> queryId \<longrightarrow>
          map_of (ownProps h' newState) q = map_of (ownProps h previousState) q
          \<and> map_of (readStore h' newState) q = map_of (readStore h previousState) q)
     \<and> (\<forall>S queryId q. action_queryId a = Some queryId \<and> q \<noteq> queryId \<longrightarrow>
          map_of (ownProperties (queries now hasErr S a)) q = map_of S q)"
proof -
  assume wf: "wf_store h previousState"
    and run: "queries_heap now hasErr h previousState a = (h', newState)"
  from run have h': "h' = fst (queries_heap now hasErr h previousState a)"
    and newState: "newState = snd (queries_heap now hasErr h previousState a)"
    by simp_all
  from queries_heap_grows [OF wf, of now hasErr a]
  obtain ss vs where grows:
    "storeObjects h' = storeObjects h @ ss" "valueObjects h' = valueObjects h @ vs"
    unfolding h' by blast
  from wf grows have old: "readStore h' previousState = readStore h previousState"
    and old_object: "readObject h' previousState = plain (readStore h previousState)"
    by (rule readStore_extend)+
  from queries_heap_refines [OF wf, of now hasErr a]
  have new: "readObject h' newState = queries now hasErr (readStore h previousState) a"
    unfolding h' newState by simp
  have "readStore h' newState = ownProperties (readObject h' newState)"
    by (simp add: readObject_def)
  with new have new_props:
    "readStore h' newState = ownProperties (queries now hasErr (readStore h previousState) a)"
    by simp
  have refs: "\<forall>queryId q. action_queryId a = Some queryId \<and> q \<noteq> queryId \<longrightarrow>
      map_of (ownProps h' newState) q = map_of (ownProps h previousState) q
      \<and> map_of (readStore h' newState) q = map_of (readStore h previousState) q"
    unfolding new_props unfolding h' newState
    by (simp add: queries_heap_other_ids queries_other_ids)
  have vals: "\<forall>S queryId q. action_queryId a = Some queryId \<and> q \<noteq> queryId \<longrightarrow>
      map_of (ownProperties (queries now hasErr S a)) q = map_of S q"
    by (simp add: queries_other_ids)
  from grows old old_object new refs vals show ?thesis
    by blast
qed

theorem queries_frame_witness:
  "wf_store heapABC 0
   \<and> queries_heap 0 hasErrors heapABC 0 (QUERY_STOP ''b'') = (heapABC_stopB, 1)
   \<and> storeObjects heapABC_stopB = storeObjects heapABC @
       [\<lparr> properties = [(''a'', 0), (''b'', 3), (''c'', 2)], prototypeRef = None \<rparr>]
   \<and> readStore heapABC_stopB 0 = stateABC
   \<and> readObject heapABC_stopB 1 =
       plain
        [(''a'', entryA), (''b'', entryB\<lparr> loading := Val False, stopped := Val True \<rparr>),
         (''c'', entryC)]
   \<and> map_of (ownProps heapABC_stopB 1) ''a'' = map_of (ownProps heapABC 0) ''a''
   \<and> map_of (ownProps heapABC_stopB 1) ''c'' = Some 2
   \<and> queries_heap 0 hasErrors heapABC 0 (QUERY_STOP ''__proto__'') = (heapABC_stopProto, 1)
   \<and> readStore heapABC_stopProto 0 = stateABC
   \<and> readObject heapABC_stopProto 1 =
       \<lparr> ownProperties = stateABC,
         prototype = Some (emptyObject\<lparr> loading := Val False, stopped := Val True \<rparr>) \<rparr>
   \<and> map_of (ownProps heapABC_stopProto 1) ''b'' = Some 1"
proof -
  have wf: "wf_store heapABC 0"
    by (simp add: wf_store_def heapABC_def ownProps_def)
  have run: "queries_heap 0 hasErrors heapABC 0 (QUERY_STOP ''b'') = (heapABC_stopB, 1)"
    by (simp add: heapABC_def heapABC_stopB_def writeEntry_heap getProp_def getProperty_def
        ownProps_def readValue_def deref_def assign_def)
  have run_proto:
    "queries_heap 0 hasErrors heapABC 0 (QUERY_STOP ''__proto__'') = (heapABC_stopProto, 1)"
    by (simp add: heapABC_def heapABC_stopProto_def writeEntry_heap getProp_def getProperty_def
        objectPrototypeNames_def ownProps_def readValue_def deref_def assign_def)
  from queries_frame [OF wf run] queries_frame [OF wf run_proto] wf run run_proto
  show ?thesis
    by (simp add: heapABC_def heapABC_stopB_def heapABC_stopProto_def readObject_def
        readStore_def deref_def ownProps_def stateABC_def plain_def)
qed

end
